theory Spec2Isabelle
  imports Complex_Main "HOL-Library.Multiset" "HOL-Library.Sublist"
begin

section \<open>Data model\<close>

text \<open>
  The program (\<^verbatim>\<open>app.py\<close>) keeps one pandas table \<^verbatim>\<open>data\<close>, indexed by date, with
  the columns Open, High, Low, Close and Volume, and adds columns of derived values to it.
  A row of the downloaded table is a record; a cell is either a finite number or missing
  (\<open>None\<close>, pandas' NaN in a column of the downloaded table).
\<close>

record row =
  Date :: int
  Open :: "real option"
  High :: "real option"
  Low :: "real option"
  Close :: "real option"
  Volume :: "real option"

text \<open>
  Values computed by the program are floats. They are modelled by exact reals together with
  the three special values of floating-point arithmetic that the program can produce: the
  two infinities (division of a non-zero number by zero) and NaN. Rounding and overflow of
  finite values are not modelled.
\<close>

datatype fl = Fin real | PInf | NInf | NaN

fun flt :: "fl \<Rightarrow> fl \<Rightarrow> bool" where
  "flt (Fin x) (Fin y) = (x < y)"
| "flt (Fin x) PInf = True"
| "flt NInf (Fin y) = True"
| "flt NInf PInf = True"
| "flt _ _ = False"

definition fgt :: "fl \<Rightarrow> fl \<Rightarrow> bool" where
  "fgt a b = flt b a"

fun fneg :: "fl \<Rightarrow> fl" where
  "fneg (Fin x) = Fin (- x)"
| "fneg PInf = NInf"
| "fneg NInf = PInf"
| "fneg NaN = NaN"

fun fadd :: "fl \<Rightarrow> fl \<Rightarrow> fl" where
  "fadd (Fin x) (Fin y) = Fin (x + y)"
| "fadd NaN _ = NaN"
| "fadd _ NaN = NaN"
| "fadd PInf NInf = NaN"
| "fadd NInf PInf = NaN"
| "fadd PInf _ = PInf"
| "fadd _ PInf = PInf"
| "fadd NInf _ = NInf"
| "fadd _ NInf = NInf"

definition fsub :: "fl \<Rightarrow> fl \<Rightarrow> fl" where
  "fsub a b = fadd a (fneg b)"

fun fmul :: "fl \<Rightarrow> fl \<Rightarrow> fl" where
  "fmul (Fin x) (Fin y) = Fin (x * y)"
| "fmul NaN _ = NaN"
| "fmul _ NaN = NaN"
| "fmul (Fin x) PInf = (if x = 0 then NaN else if 0 < x then PInf else NInf)"
| "fmul (Fin x) NInf = (if x = 0 then NaN else if 0 < x then NInf else PInf)"
| "fmul PInf (Fin y) = (if y = 0 then NaN else if 0 < y then PInf else NInf)"
| "fmul NInf (Fin y) = (if y = 0 then NaN else if 0 < y then NInf else PInf)"
| "fmul PInf PInf = PInf"
| "fmul NInf NInf = PInf"
| "fmul PInf NInf = NInf"
| "fmul NInf PInf = NInf"

text \<open>
  Division of pandas columns never raises: a non-zero number over zero is an infinity and
  zero over zero is NaN. (The sign of a zero is not modelled; a zero divisor counts as
  positive.)
\<close>

fun fdiv :: "fl \<Rightarrow> fl \<Rightarrow> fl" where
  "fdiv (Fin x) (Fin y) =
     (if y \<noteq> 0 then Fin (x / y) else if x = 0 then NaN else if 0 < x then PInf else NInf)"
| "fdiv NaN _ = NaN"
| "fdiv _ NaN = NaN"
| "fdiv (Fin x) PInf = Fin 0"
| "fdiv (Fin x) NInf = Fin 0"
| "fdiv PInf (Fin y) = (if 0 \<le> y then PInf else NInf)"
| "fdiv NInf (Fin y) = (if 0 \<le> y then NInf else PInf)"
| "fdiv PInf PInf = NaN"
| "fdiv PInf NInf = NaN"
| "fdiv NInf PInf = NaN"
| "fdiv NInf NInf = NaN"

text \<open>A column of the table, read as floats: \<^verbatim>\<open>data["Close"]\<close> is \<open>col Close data\<close>.\<close>

fun cell :: "real option \<Rightarrow> fl" where
  "cell None = NaN"
| "cell (Some x) = Fin x"

definition col :: "(row \<Rightarrow> real option) \<Rightarrow> row list \<Rightarrow> fl list" where
  "col c df = map (\<lambda>r. cell (c r)) df"

section \<open>Series sanitizer\<close>

text \<open>
  \<^verbatim>\<open>data = data.dropna(subset=ohlc_cols)\<close> keeps the rows that have no missing cell in
  any of the listed columns, in their order.
\<close>

definition ohlc_cols :: "(row \<Rightarrow> real option) list" where
  "ohlc_cols = [Open, High, Low, Close]"

definition dropna :: "(row \<Rightarrow> real option) list \<Rightarrow> row list \<Rightarrow> row list" where
  "dropna cols df = filter (\<lambda>r. list_all (\<lambda>c. c r \<noteq> None) cols) df"

definition sanitize :: "row list \<Rightarrow> row list" where
  "sanitize df = dropna ohlc_cols df"


section \<open>Pivot detector\<close>

text \<open>
  \<^verbatim>\<open>find_support_resistance(df, window=10)\<close> walks the positions
  \<^verbatim>\<open>range(window, len(df) - window)\<close> and appends to two lists. The inner test is
  \<^verbatim>\<open>all(... for j in range(1, window))\<close>; every position it reads is inside the table.
  A pivot is reported as the pair of the row's date and its price.
\<close>

definition support_test :: "fl list \<Rightarrow> nat \<Rightarrow> nat \<Rightarrow> bool" where
  "support_test lows window i =
     list_all (\<lambda>j. flt (lows ! i) (lows ! (i - j)) \<and> flt (lows ! i) (lows ! (i + j))) [1..<window]"

definition resistance_test :: "fl list \<Rightarrow> nat \<Rightarrow> nat \<Rightarrow> bool" where
  "resistance_test highs window i =
     list_all (\<lambda>j. fgt (highs ! i) (highs ! (i - j)) \<and> fgt (highs ! i) (highs ! (i + j))) [1..<window]"

definition pivot_step ::
  "row list \<Rightarrow> nat \<Rightarrow> (int \<times> fl) list \<times> (int \<times> fl) list \<Rightarrow> nat \<Rightarrow> (int \<times> fl) list \<times> (int \<times> fl) list"
where
  "pivot_step df window acc i =
     (let highs = col High df; lows = col Low df;
          support = fst acc; resistance = snd acc;
          support' = (if support_test lows window i
                      then support @ [(Date (df ! i), lows ! i)] else support);
          resistance' = (if resistance_test highs window i
                         then resistance @ [(Date (df ! i), highs ! i)] else resistance)
      in (support', resistance'))"

definition find_support_resistance :: "row list \<Rightarrow> nat \<Rightarrow> (int \<times> fl) list \<times> (int \<times> fl) list" where
  "find_support_resistance df window =
     foldl (pivot_step df window) ([], []) [window..<length df - window]"

text \<open>The positions that the detector marks, read off the loop's two tests.\<close>

definition support_marked :: "row list \<Rightarrow> nat \<Rightarrow> nat \<Rightarrow> bool" where
  "support_marked df window i =
     (window \<le> i \<and> i < length df - window \<and> support_test (col Low df) window i)"

definition resistance_marked :: "row list \<Rightarrow> nat \<Rightarrow> nat \<Rightarrow> bool" where
  "resistance_marked df window i =
     (window \<le> i \<and> i < length df - window \<and> resistance_test (col High df) window i)"

section \<open>Indicator engine\<close>

text \<open>
  \<^verbatim>\<open>s.rolling(window=k)\<close> has \<^verbatim>\<open>min_periods = k\<close>: position \<open>i\<close> has a value only
  when the \<open>k\<close> positions ending at \<open>i\<close> exist and none of them is NaN. The columns that
  the program rolls over hold finite numbers and NaN only.
\<close>

definition window_at :: "nat \<Rightarrow> 'a list \<Rightarrow> nat \<Rightarrow> 'a list" where
  "window_at k xs i = take k (drop (i + 1 - k) xs)"

fun fin_vals :: "fl list \<Rightarrow> real list option" where
  "fin_vals [] = Some []"
| "fin_vals (Fin x # xs) = (case fin_vals xs of None \<Rightarrow> None | Some ys \<Rightarrow> Some (x # ys))"
| "fin_vals (_ # xs) = None"

definition rolling :: "nat \<Rightarrow> (real list \<Rightarrow> fl) \<Rightarrow> fl list \<Rightarrow> fl list" where
  "rolling k f xs =
     map (\<lambda>i. if i + 1 < k then NaN
              else (case fin_vals (window_at k xs i) of None \<Rightarrow> NaN | Some ws \<Rightarrow> f ws))
         [0..<length xs]"

definition mean :: "real list \<Rightarrow> real" where
  "mean ws = sum_list ws / real (length ws)"

text \<open>The sample standard deviation (pandas' default \<^verbatim>\<open>ddof=1\<close>).\<close>

definition std :: "real list \<Rightarrow> fl" where
  "std ws =
     (if length ws \<le> 1 then NaN
      else Fin (sqrt (sum_list (map (\<lambda>x. (x - mean ws)\<^sup>2) ws) / real (length ws - 1))))"

definition rolling_mean :: "nat \<Rightarrow> fl list \<Rightarrow> fl list" where
  "rolling_mean k xs = rolling k (\<lambda>ws. Fin (mean ws)) xs"

definition rolling_std :: "nat \<Rightarrow> fl list \<Rightarrow> fl list" where
  "rolling_std k xs = rolling k std xs"

definition SMA20 :: "row list \<Rightarrow> fl list" where
  "SMA20 df = rolling_mean 20 (col Close df)"

definition SMA50 :: "row list \<Rightarrow> fl list" where
  "SMA50 df = rolling_mean 50 (col Close df)"

text \<open>
  \<^verbatim>\<open>s.diff()\<close>: NaN at the first position, then the difference to the previous row.
  \<^verbatim>\<open>s.where(cond, other)\<close> keeps the value where the condition holds and puts
  \<open>other\<close> elsewhere; a comparison with NaN is false.
\<close>

fun diff :: "fl list \<Rightarrow> fl list" where
  "diff [] = []"
| "diff (x # xs) = NaN # map2 (\<lambda>prev cur. fsub cur prev) (x # xs) xs"

definition series_where :: "(fl \<Rightarrow> bool) \<Rightarrow> fl \<Rightarrow> fl list \<Rightarrow> fl list" where
  "series_where cond other xs = map (\<lambda>x. if cond x then x else other) xs"

definition delta :: "row list \<Rightarrow> fl list" where
  "delta df = diff (col Close df)"

definition gain :: "row list \<Rightarrow> fl list" where
  "gain df = series_where (\<lambda>d. fgt d (Fin 0)) (Fin 0) (delta df)"

definition loss :: "row list \<Rightarrow> fl list" where
  "loss df = map fneg (series_where (\<lambda>d. flt d (Fin 0)) (Fin 0) (delta df))"

definition avg_gain :: "row list \<Rightarrow> fl list" where
  "avg_gain df = rolling_mean 14 (gain df)"

definition avg_loss :: "row list \<Rightarrow> fl list" where
  "avg_loss df = rolling_mean 14 (loss df)"

definition rs :: "row list \<Rightarrow> fl list" where
  "rs df = map2 fdiv (avg_gain df) (avg_loss df)"

definition RSI :: "row list \<Rightarrow> fl list" where
  "RSI df = map (\<lambda>r. fsub (Fin 100) (fdiv (Fin 100) (fadd (Fin 1) r))) (rs df)"

definition BB_std :: "row list \<Rightarrow> fl list" where
  "BB_std df = rolling_std 20 (col Close df)"

text \<open>
  The bands are built by float64 operations on the two columns,
  \<^verbatim>\<open>data["SMA20"] + (2 * data["BB_std"])\<close> and the same with a minus: each operation
  rounds its exact result to a double. The rounding is the parameter \<open>rnd\<close>, of which
  nothing is assumed; infinities and NaN pass through it.
\<close>

fun rounded :: "(real \<Rightarrow> real) \<Rightarrow> fl \<Rightarrow> fl" where
  "rounded rnd (Fin x) = Fin (rnd x)"
| "rounded rnd v = v"

definition BB_upper :: "(real \<Rightarrow> real) \<Rightarrow> row list \<Rightarrow> fl list" where
  "BB_upper rnd df =
     map2 (\<lambda>m b. rounded rnd (fadd m b)) (SMA20 df)
       (map (\<lambda>s. rounded rnd (fmul (Fin 2) s)) (BB_std df))"

definition BB_lower :: "(real \<Rightarrow> real) \<Rightarrow> row list \<Rightarrow> fl list" where
  "BB_lower rnd df =
     map2 (\<lambda>m b. rounded rnd (fsub m b)) (SMA20 df)
       (map (\<lambda>s. rounded rnd (fmul (Fin 2) s)) (BB_std df))"












section \<open>Signal scorer: the buy-strength meter\<close>

text \<open>
  \<^verbatim>\<open>data["RSI"].dropna()\<close> is the RSI column without its NaN entries; the scorer takes
  its last entry, or 50 when nothing is left.
\<close>

definition series_dropna :: "fl list \<Rightarrow> fl list" where
  "series_dropna xs = filter (\<lambda>x. x \<noteq> NaN) xs"

definition latest_rsi_of :: "fl list \<Rightarrow> fl" where
  "latest_rsi_of rsi =
     (if series_dropna rsi = [] then Fin 50 else last (series_dropna rsi))"

definition latest_rsi :: "row list \<Rightarrow> fl" where
  "latest_rsi df = latest_rsi_of (RSI df)"

text \<open>
  \<^verbatim>\<open>s.iloc[-1]\<close> raises IndexError on an empty column and nothing else; the
  \<^verbatim>\<open>try ... except\<close> around the SMA difference catches that and puts 0.
\<close>

datatype error = IndexError

definition iloc_last :: "'a list \<Rightarrow> error + 'a" where
  "iloc_last xs = (if xs = [] then Inl IndexError else Inr (last xs))"

definition sma_diff_of :: "fl list \<Rightarrow> fl list \<Rightarrow> fl" where
  "sma_diff_of sma20 sma50 =
     (case iloc_last sma20 of
        Inl e \<Rightarrow> Fin 0
      | Inr a \<Rightarrow> (case iloc_last sma50 of Inl e \<Rightarrow> Fin 0 | Inr b \<Rightarrow> fsub a b))"

definition sma_diff :: "row list \<Rightarrow> fl" where
  "sma_diff df = sma_diff_of (SMA20 df) (SMA50 df)"

definition rsi_points :: "fl \<Rightarrow> nat" where
  "rsi_points r = (if flt r (Fin 30) then 2 else if flt r (Fin 50) then 1 else 0)"

definition sma_points :: "fl \<Rightarrow> nat" where
  "sma_points d = (if fgt d (Fin 0) then 2 else if fgt d (Fin (- 5)) then 1 else 0)"

definition score_of :: "fl \<Rightarrow> fl \<Rightarrow> nat" where
  "score_of r d = 0 + rsi_points r + sma_points d"

datatype label = Sell | Strong_Buy | Buy | Hold | Weak_Hold

definition meter_of :: "nat \<Rightarrow> label" where
  "meter_of s =
     (if s \<ge> 4 then Strong_Buy
      else if s \<ge> 3 then Buy
      else if s = 2 then Hold
      else if s = 1 then Weak_Hold
      else Sell)"

definition score :: "row list \<Rightarrow> nat" where
  "score df = score_of (latest_rsi df) (sma_diff df)"

definition meter :: "row list \<Rightarrow> label" where
  "meter df = meter_of (score df)"

section \<open>Example series\<close>

text \<open>
  Small tables on which the definitions are evaluated: a bar whose four prices agree, a bar
  given by its high and its low, a series rising by one a day, a single row, a rise followed
  by fourteen unchanged closes, a downloaded table with one row lacking its close and one
  lacking its volume, and two series of 21 rows for the pivot detector with its default
  window of 10.
\<close>

definition flat_bar :: "int \<Rightarrow> real \<Rightarrow> row" where
  "flat_bar d c = \<lparr>Date = d, Open = Some c, High = Some c, Low = Some c, Close = Some c, Volume = Some 1000\<rparr>"

definition bar :: "int \<Rightarrow> real \<Rightarrow> real \<Rightarrow> row" where
  "bar d h l = \<lparr>Date = d, Open = Some l, High = Some h, Low = Some l, Close = Some h, Volume = Some 1000\<rparr>"

definition rising :: "nat \<Rightarrow> row list" where
  "rising n = map (\<lambda>i. flat_bar (int i) (real i)) [0..<n]"

definition one_row :: "row list" where
  "one_row = [flat_bar 0 100]"

definition plateau :: "row list" where
  "plateau = rising 14 @ map (\<lambda>i. flat_bar (int i) 13) [14..<28]"

definition holed :: "row list" where
  "holed = map (\<lambda>i. if i = 7 then (flat_bar (int i) (real i))\<lparr>Close := None\<rparr>
                      else if i = 9 then (flat_bar (int i) (real i))\<lparr>Volume := None\<rparr>
                      else flat_bar (int i) (real i)) [0..<52]"

definition early_low :: "row list" where
  "early_low = map (\<lambda>i. bar (int i) 10 (if i = 0 then 0 else if i = 10 then 1 else 5)) [0..<21]"

definition outside_bar :: "row list" where
  "outside_bar = map (\<lambda>i. if i = 10 then bar 10 9 1 else bar (int i) 6 5) [0..<21]"

section \<open>Facts about the building blocks\<close>

subsection \<open>Rolling windows\<close>

lemma length_rolling: "length (rolling k f xs) = length xs"
  by (simp add: rolling_def)

lemma nth_rolling:
  "i < length xs \<Longrightarrow>
   rolling k f xs ! i =
     (if i + 1 < k then NaN
      else (case fin_vals (window_at k xs i) of None \<Rightarrow> NaN | Some ws \<Rightarrow> f ws))"
  by (simp add: rolling_def)

lemma fin_vals_map_Fin: "fin_vals (map Fin cs) = Some cs"
  by (induction cs) simp_all

lemma fin_vals_Some: "fin_vals xs = Some ws \<Longrightarrow> xs = map Fin ws"
proof (induction xs arbitrary: ws)
  case Nil
  then show ?case by simp
next
  case (Cons x xs)
  then show ?case by (cases x) (auto split: option.splits)
qed

lemma window_at_map: "window_at k (map f xs) i = map f (window_at k xs i)"
  by (simp add: window_at_def take_map drop_map)

lemma length_window_at:
  "i < length xs \<Longrightarrow> k \<le> i + 1 \<Longrightarrow> length (window_at k xs i) = k"
  by (simp add: window_at_def)

lemma sum_list_window_at:
  fixes cs :: "real list"
  assumes "i < length cs" "k \<le> i + 1"
  shows "sum_list (window_at k cs i) = (\<Sum>j = i + 1 - k..<i + 1. cs ! j)"
proof -
  have "window_at k cs i = map ((!) cs) [i + 1 - k..<i + 1]"
    using assms
    by (intro nth_equalityI) (auto simp del: upt_Suc simp: window_at_def)
  then show ?thesis
    by (simp add: interv_sum_list_conv_sum_set_nat)
qed

lemma col_length: "length (col c df) = length df"
  by (simp add: col_def)

lemma col_map_Some: "map c df = map Some cs \<Longrightarrow> col c df = map Fin cs"
proof -
  assume a: "map c df = map Some cs"
  have "col c df = map cell (map c df)" by (simp add: col_def)
  also have "\<dots> = map Fin cs" by (simp add: a)
  finally show ?thesis .
qed

lemma rolling_mean_Fin:
  assumes "i < length cs"
  shows "rolling_mean k (map Fin cs) ! i =
     (if i + 1 < k then NaN else Fin ((\<Sum>j = i + 1 - k..<i + 1. cs ! j) / real k))"
  using assms
  by (simp add: rolling_mean_def nth_rolling window_at_map fin_vals_map_Fin mean_def
      sum_list_window_at length_window_at)

lemma length_rolling_mean: "length (rolling_mean k xs) = length xs"
  by (simp add: rolling_mean_def length_rolling)

lemma all_Fin_map:
  "(\<forall>x\<in>set xs. \<exists>g. x = Fin g \<and> P g) \<Longrightarrow> \<exists>gs. xs = map Fin gs \<and> (\<forall>g\<in>set gs. P g)"
proof (induction xs)
  case Nil
  then show ?case by simp
next
  case (Cons x xs)
  then obtain gs where gs: "xs = map Fin gs" "\<forall>g\<in>set gs. P g" by auto
  from Cons.prems obtain g where g: "x = Fin g" "P g" by auto
  show ?case
    using gs g by (intro exI[of _ "g # gs"]) simp
qed

lemma rolling_mean_nonneg:
  assumes "xs = map Fin gs" "\<forall>g\<in>set gs. 0 \<le> g" "i < length xs"
  shows "\<exists>a. 0 \<le> a \<and> rolling_mean k xs ! i = (if i + 1 < k then NaN else Fin a)"
proof -
  have i: "i < length gs" using assms(1,3) by simp
  have "0 \<le> (\<Sum>j = i + 1 - k..<i + 1. gs ! j)"
    using assms(2) i by (intro sum_nonneg) auto
  then have "0 \<le> (\<Sum>j = i + 1 - k..<i + 1. gs ! j) / real k"
    by simp
  then show ?thesis
    using rolling_mean_Fin[OF i, of k] assms(1) by blast
qed

subsection \<open>The sanitized table\<close>

lemma sanitize_filter:
  "sanitize df = filter (\<lambda>r. Open r \<noteq> None \<and> High r \<noteq> None \<and> Low r \<noteq> None \<and> Close r \<noteq> None) df"
  by (simp add: sanitize_def dropna_def ohlc_cols_def)

lemma sanitize_closes: "\<exists>cs. map Close (sanitize raw) = map Some cs"
proof -
  have "\<forall>r \<in> set (sanitize raw). Close r \<noteq> None"
    by (auto simp: sanitize_def dropna_def ohlc_cols_def)
  then have "map Close (sanitize raw) = map Some (map (\<lambda>r. the (Close r)) (sanitize raw))"
    by (auto)
  then show ?thesis by blast
qed

subsection \<open>Gains, losses and the RSI formula\<close>

text \<open>
  Every gain and every loss is a finite number that is not negative, on any table: the NaN
  of the first difference fails both comparisons and is replaced by 0.
\<close>

lemma cell_cases: "cell c = NaN \<or> (\<exists>r. cell c = Fin r)"
  by (cases c) simp_all

lemma delta_cases:
  assumes "d \<in> set (delta df)"
  shows "d = NaN \<or> (\<exists>r. d = Fin r)"
proof (cases df)
  case Nil
  with assms show ?thesis by (simp add: delta_def col_def)
next
  case (Cons r rs)
  with assms have "d = NaN \<or> d \<in> set (map2 (\<lambda>prev cur. fsub cur prev) (col Close df) (col Close rs))"
    by (auto simp: delta_def col_def)
  then show ?thesis
  proof
    assume "d = NaN" then show ?thesis by simp
  next
    assume "d \<in> set (map2 (\<lambda>prev cur. fsub cur prev) (col Close df) (col Close rs))"
    then obtain a b where ab: "d = fsub b a" "a \<in> set (col Close df)" "b \<in> set (col Close rs)"
      by (auto dest: set_zip_leftD set_zip_rightD)
    from ab(2,3) obtain ca cb where "a = cell ca" "b = cell cb"
      by (auto simp: col_def)
    with ab(1) show ?thesis
      by (cases ca; cases cb) (simp_all add: fsub_def)
  qed
qed

lemma length_diff: "length (diff xs) = length xs"
  by (cases xs) simp_all

lemma length_delta: "length (delta df) = length df"
  by (simp add: delta_def length_diff col_length)

lemma gain_Fin: "\<exists>gs. gain df = map Fin gs \<and> (\<forall>g\<in>set gs. 0 \<le> g)"
proof (rule all_Fin_map, rule ballI)
  fix x assume "x \<in> set (gain df)"
  then obtain d where d: "d \<in> set (delta df)" "x = (if fgt d (Fin 0) then d else Fin 0)"
    by (auto simp: gain_def series_where_def)
  from delta_cases[OF d(1)] d(2) show "\<exists>g. x = Fin g \<and> 0 \<le> g"
    by (auto simp: fgt_def)
qed

lemma loss_Fin: "\<exists>ls. loss df = map Fin ls \<and> (\<forall>l\<in>set ls. 0 \<le> l)"
proof (rule all_Fin_map, rule ballI)
  fix x assume "x \<in> set (loss df)"
  then obtain d where d: "d \<in> set (delta df)" "x = fneg (if flt d (Fin 0) then d else Fin 0)"
    by (auto simp: loss_def series_where_def)
  from delta_cases[OF d(1)] d(2) show "\<exists>g. x = Fin g \<and> 0 \<le> g"
    by auto
qed

lemma length_gain: "length (gain df) = length df"
  by (simp add: gain_def series_where_def length_delta)

lemma length_loss: "length (loss df) = length df"
  by (simp add: loss_def series_where_def length_delta)

lemma avg_gain_loss_nth:
  assumes "i < length df"
  shows "\<exists>g l. 0 \<le> g \<and> 0 \<le> l \<and>
     avg_gain df ! i = (if i < 13 then NaN else Fin g) \<and>
     avg_loss df ! i = (if i < 13 then NaN else Fin l)"
proof -
  obtain gs where gs: "gain df = map Fin gs" "\<forall>g\<in>set gs. 0 \<le> g"
    using gain_Fin by blast
  obtain ls where ls: "loss df = map Fin ls" "\<forall>l\<in>set ls. 0 \<le> l"
    using loss_Fin by blast
  have ig: "i < length (gain df)" and il: "i < length (loss df)"
    using assms by (simp_all add: length_gain length_loss)
  obtain g where g: "0 \<le> g" "rolling_mean 14 (gain df) ! i = (if i + 1 < 14 then NaN else Fin g)"
    using rolling_mean_nonneg[OF gs ig] by blast
  obtain l where l: "0 \<le> l" "rolling_mean 14 (loss df) ! i = (if i + 1 < 14 then NaN else Fin l)"
    using rolling_mean_nonneg[OF ls il] by blast
  have "(i + 1 < 14) = (i < 13)" by arith
  with g l show ?thesis
    unfolding avg_gain_def avg_loss_def by auto
qed

lemma RSI_nth:
  assumes "i < length df"
  shows "RSI df ! i =
     fsub (Fin 100) (fdiv (Fin 100) (fadd (Fin 1) (fdiv (avg_gain df ! i) (avg_loss df ! i))))"
  using assms
  by (simp add: RSI_def rs_def avg_gain_def avg_loss_def length_rolling_mean length_gain length_loss)


lemma rsi_formula:
  assumes "0 \<le> g" "0 \<le> l"
  shows "fsub (Fin 100) (fdiv (Fin 100) (fadd (Fin 1) (fdiv (Fin g) (Fin l)))) =
     (if l \<noteq> 0 then Fin (100 - 100 / (1 + g / l)) else if g = 0 then NaN else Fin 100)"
proof -
  have "1 + g / l \<noteq> 0"
  proof -
    have "0 \<le> g / l" using assms by simp
    then show ?thesis by linarith
  qed
  then show ?thesis
    using assms by (simp add: fsub_def)
qed

subsection \<open>The pivot loop\<close>

text \<open>
  The loop appends, in order, the positions of its range that pass the test; these are the
  positions described by \<open>support_marked\<close> and \<open>resistance_marked\<close>. The test compares
  position \<open>i\<close> with its neighbours at the distances \<open>1, \<dots>, window - 1\<close>.
\<close>

lemma foldl_pivot_step:
  "foldl (pivot_step df w) (s, r) is =
     (s @ map (\<lambda>i. (Date (df ! i), col Low df ! i)) (filter (support_test (col Low df) w) is),
      r @ map (\<lambda>i. (Date (df ! i), col High df ! i)) (filter (resistance_test (col High df) w) is))"
  by (induction "is" arbitrary: s r) (simp_all add: pivot_step_def Let_def)

lemma find_support_resistance_marked:
  "find_support_resistance df w =
     (map (\<lambda>i. (Date (df ! i), col Low df ! i)) (filter (support_marked df w) [w..<length df - w]),
      map (\<lambda>i. (Date (df ! i), col High df ! i)) (filter (resistance_marked df w) [w..<length df - w]))"
proof -
  have "filter (support_test (col Low df) w) [w..<length df - w] =
        filter (support_marked df w) [w..<length df - w]"
    by (rule filter_cong) (auto simp: support_marked_def)
  moreover have "filter (resistance_test (col High df) w) [w..<length df - w] =
        filter (resistance_marked df w) [w..<length df - w]"
    by (rule filter_cong) (auto simp: resistance_marked_def)
  ultimately show ?thesis
    by (simp add: find_support_resistance_def foldl_pivot_step)
qed

lemma support_marked_iff:
  "support_marked df w i \<longleftrightarrow>
     w \<le> i \<and> i < length df - w \<and>
     (\<forall>j. 1 \<le> j \<and> j < w \<longrightarrow>
        flt (col Low df ! i) (col Low df ! (i - j)) \<and> flt (col Low df ! i) (col Low df ! (i + j)))"
  by (auto simp: support_marked_def support_test_def list_all_iff)

lemma resistance_marked_iff:
  "resistance_marked df w i \<longleftrightarrow>
     w \<le> i \<and> i < length df - w \<and>
     (\<forall>j. 1 \<le> j \<and> j < w \<longrightarrow>
        fgt (col High df ! i) (col High df ! (i - j)) \<and> fgt (col High df ! i) (col High df ! (i + j)))"
  by (auto simp: resistance_marked_def resistance_test_def list_all_iff)

subsection \<open>The recomputed RSI\<close>







subsection \<open>The last entry of a filtered column\<close>

lemma last_filter:
  assumes "filter P xs \<noteq> []"
  shows "\<exists>i<length xs. P (xs ! i) \<and> (\<forall>j<length xs. i < j \<longrightarrow> \<not> P (xs ! j)) \<and> last (filter P xs) = xs ! i"
  using assms
proof (induction xs rule: rev_induct)
  case Nil
  then show ?case by simp
next
  case (snoc x xs)
  show ?case
  proof (cases "P x")
    case True
    then show ?thesis
      by (intro exI[of _ "length xs"]) simp
  next
    case False
    with snoc.prems have "filter P xs \<noteq> []" by simp
    from snoc.IH[OF this] obtain i where i: "i < length xs" "P (xs ! i)"
      "\<forall>j<length xs. i < j \<longrightarrow> \<not> P (xs ! j)" "last (filter P xs) = xs ! i"
      by blast
    have "\<forall>j<length (xs @ [x]). i < j \<longrightarrow> \<not> P ((xs @ [x]) ! j)"
      using i(3) False by (auto simp: nth_append)
    then show ?thesis
      using i False by (intro exI[of _ i]) (simp add: nth_append)
  qed
qed

section \<open>Pivot detector: the window of the test\<close>

text \<open>
  Claim C1. The spec has position \<open>i\<close> a support exactly when its low is strictly below
  the lows at every distance \<open>j\<close> in \<open>[1, w]\<close> on both sides. The loop reserves \<open>w\<close> rows
  on each side but its test \<^verbatim>\<open>range(1, window)\<close> stops at \<open>w - 1\<close>. With the default
  window 10 on the 21 rows of \<open>early_low\<close>, row 10 (low 1) is reported as a support
  although row 0, at distance 10, has the lower low 0.
\<close>

theorem pivot_window_off_by_one:
  "find_support_resistance early_low 10 = ([(10, Fin 1)], []) \<and>
   support_marked early_low 10 10 \<and>
   \<not> flt (col Low early_low ! 10) (col Low early_low ! (10 - 10))"
  by code_simp

text \<open>
  Claim C4. The spec has no position marked as support and as resistance at once. The two
  tests read different columns (lows and highs), so a bar with a lower low and a higher high
  than its neighbours passes both: row 10 of \<open>outside_bar\<close>, with the default window 10.
\<close>

theorem no_double_pivot_counterexample:
  "find_support_resistance outside_bar 10 = ([(10, Fin 1)], [(10, Fin 9)]) \<and>
   support_marked outside_bar 10 10 \<and> resistance_marked outside_bar 10 10"
  by code_simp

text \<open>
  Claim C4, as amended. A position is marked as both support and resistance only when its
  bar is an outside bar of all the neighbours that the tests read: a position \<open>i\<close> whose
  low is not strictly below, or whose high is not strictly above, that of some row \<open>i - j\<close>
  or \<open>i + j\<close> with \<open>1 \<le> j \<le> w - 1\<close> (so \<open>w \<ge> 2\<close>) is not marked as both.
\<close>

theorem no_double_pivot:
  assumes "1 \<le> j" and "j < w"
    and "\<not> (flt (col Low df ! i) (col Low df ! (i - j)) \<and>
             flt (col Low df ! i) (col Low df ! (i + j)) \<and>
             fgt (col High df ! i) (col High df ! (i - j)) \<and>
             fgt (col High df ! i) (col High df ! (i + j)))"
  shows "\<not> (support_marked df w i \<and> resistance_marked df w i)"
proof
  assume m: "support_marked df w i \<and> resistance_marked df w i"
  from m assms(1,2) have
    "flt (col Low df ! i) (col Low df ! (i - j)) \<and> flt (col Low df ! i) (col Low df ! (i + j))"
    by (simp add: support_marked_iff)
  moreover from m assms(1,2) have
    "fgt (col High df ! i) (col High df ! (i - j)) \<and> fgt (col High df ! i) (col High df ! (i + j))"
    by (simp add: resistance_marked_iff)
  ultimately show False using assms(3) by simp
qed

text \<open>
  Claim C4, the amended statement at row 10 of \<open>early_low\<close> with window 10 and the
  neighbours at distance 9: its high does not exceed theirs, and it is marked as support
  only.
\<close>

theorem no_double_pivot_witness:
  "(1::nat) \<le> 9 \<and> (9::nat) < 10 \<and> support_marked early_low 10 10 \<and>
   \<not> resistance_marked early_low 10 10"
proof -
  have h1: "(1::nat) \<le> 9" by simp
  have h2: "(9::nat) < 10" by simp
  have h3: "\<not> (flt (col Low early_low ! 10) (col Low early_low ! (10 - 9)) \<and>
               flt (col Low early_low ! 10) (col Low early_low ! (10 + 9)) \<and>
               fgt (col High early_low ! 10) (col High early_low ! (10 - 9)) \<and>
               fgt (col High early_low ! 10) (col High early_low ! (10 + 9)))"
    by code_simp
  have s: "support_marked early_low 10 10" by code_simp
  from no_double_pivot[OF h1 h2 h3] s show ?thesis by simp
qed

section \<open>Sanitizer\<close>

text \<open>
  Claim C10. The sanitized table is the downloaded table with some rows deleted (the rows
  that remain are unchanged and in their order), and the rows that remain are, with their
  multiplicities, exactly the rows that have an open, a high, a low and a close. The volume
  plays no part.
\<close>

theorem sanitize_frame:
  "subseq (sanitize df) df \<and>
   mset (sanitize df) =
     filter_mset (\<lambda>r. Open r \<noteq> None \<and> High r \<noteq> None \<and> Low r \<noteq> None \<and> Close r \<noteq> None) (mset df)"
  by (simp add: sanitize_filter)

text \<open>
  Claim C10 on the table \<open>holed\<close>: of its 52 rows only the one without a close is removed;
  the one without a volume stays.
\<close>

theorem sanitize_frame_witness:
  "subseq (sanitize holed) holed \<and> length (sanitize holed) = 51 \<and> length holed = 52"
proof -
  have "length (sanitize holed) = 51" "length holed = 52" by code_simp+
  with sanitize_frame[of holed] show ?thesis by simp
qed

section \<open>Moving averages\<close>

text \<open>
  Claim C8. On a sanitized table of at least 50 rows every close is present, and SMA50 is
  NaN at the positions below 49 and the equally weighted mean of the closes at the positions
  \<open>i - 49, \<dots>, i\<close> from position 49 on.
\<close>

theorem SMA50_defined_mean:
  assumes "df = sanitize raw" and "50 \<le> length df"
  shows "\<exists>cs. map Close df = map Some cs \<and>
     (\<forall>i<length df. SMA50 df ! i =
        (if i < 49 then NaN else Fin ((\<Sum>j = i - 49..i. cs ! j) / 50)))"
proof -
  from assms(1) obtain cs where cs: "map Close df = map Some cs"
    using sanitize_closes by blast
  then have len: "length cs = length df"
    by (metis length_map)
  have "SMA50 df ! i = (if i < 49 then NaN else Fin ((\<Sum>j = i - 49..i. cs ! j) / 50))"
    if "i < length df" for i
  proof -
    have eq: "{i + 1 - 50..<i + 1} = {i - 49..i}" if "49 \<le> i"
      using that by auto
    show ?thesis
      using that len eq
      by (auto simp: SMA50_def col_map_Some[OF cs] rolling_mean_Fin)
  qed
  with cs show ?thesis by blast
qed

text \<open>
  Claim C8 on the sanitized table \<open>holed\<close>, which has 51 rows.
\<close>

theorem SMA50_defined_mean_witness:
  "50 \<le> length (sanitize holed) \<and>
   (\<exists>cs. map Close (sanitize holed) = map Some cs \<and>
     (\<forall>i<length (sanitize holed). SMA50 (sanitize holed) ! i =
        (if i < 49 then NaN else Fin ((\<Sum>j = i - 49..i. cs ! j) / 50))))"
proof -
  have h: "50 \<le> length (sanitize holed)" by code_simp
  from SMA50_defined_mean[OF refl h] h show ?thesis by blast
qed

section \<open>RSI\<close>

text \<open>
  Claim C6. On every table, an RSI entry that is not NaN is a finite number between 0 and
  100.
\<close>

theorem RSI_bounded:
  assumes "i < length df" and "RSI df ! i \<noteq> NaN"
  shows "\<exists>r. RSI df ! i = Fin r \<and> 0 \<le> r \<and> r \<le> 100"
proof -
  obtain g l where gl: "0 \<le> g" "0 \<le> l"
    "avg_gain df ! i = (if i < 13 then NaN else Fin g)"
    "avg_loss df ! i = (if i < 13 then NaN else Fin l)"
    using avg_gain_loss_nth[OF assms(1)] by blast
  show ?thesis
  proof (cases "i < 13")
    case True
    with gl assms show ?thesis by (simp add: RSI_nth fsub_def)
  next
    case False
    then have "RSI df ! i = fsub (Fin 100) (fdiv (Fin 100) (fadd (Fin 1) (fdiv (Fin g) (Fin l))))"
      using gl assms(1) by (simp only: RSI_nth if_False)
    then have eq: "RSI df ! i =
       (if l \<noteq> 0 then Fin (100 - 100 / (1 + g / l)) else if g = 0 then NaN else Fin 100)"
      by (simp only: rsi_formula[OF gl(1,2)])
    show ?thesis
    proof (cases "l = 0")
      case True
      with eq assms(2) show ?thesis by (auto split: if_splits)
    next
      case False
      have q: "0 \<le> g / l" using gl by simp
      then have "0 < 1 + g / l" by linarith
      then have "0 \<le> 100 / (1 + g / l)" by simp
      moreover have "100 / (1 + g / l) \<le> 100"
        using q by (simp add: divide_le_eq)
      ultimately show ?thesis using eq False by simp
    qed
  qed
qed

text \<open>
  Claim C6 at row 14 of fifteen rising closes.
\<close>

theorem RSI_bounded_witness:
  "14 < length (rising 15) \<and> RSI (rising 15) ! 14 \<noteq> NaN \<and>
   (\<exists>r. RSI (rising 15) ! 14 = Fin r \<and> 0 \<le> r \<and> r \<le> 100)"
proof -
  have h1: "14 < length (rising 15)" by code_simp
  have h2: "RSI (rising 15) ! 14 \<noteq> NaN" by code_simp
  from RSI_bounded[OF h1 h2] h1 h2 show ?thesis by blast
qed




section \<open>Buy-strength meter\<close>

text \<open>
  Claim C9. The RSI that the scorer reads is 50 when every entry of the RSI column is NaN;
  otherwise it is the entry at the last position that is not NaN, whatever follows it.
\<close>

theorem latest_rsi_last_defined:
  "(if \<forall>x\<in>set (RSI df). x = NaN then latest_rsi df = Fin 50
    else \<exists>i<length (RSI df). RSI df ! i \<noteq> NaN \<and>
           (\<forall>j<length (RSI df). i < j \<longrightarrow> RSI df ! j = NaN) \<and>
           latest_rsi df = RSI df ! i)"
proof (cases "\<forall>x\<in>set (RSI df). x = NaN")
  case True
  then have "series_dropna (RSI df) = []"
    by (auto simp: series_dropna_def filter_empty_conv)
  with True show ?thesis
    by (simp add: latest_rsi_def latest_rsi_of_def)
next
  case False
  then have ne: "filter (\<lambda>x. x \<noteq> NaN) (RSI df) \<noteq> []"
    by (auto simp: filter_empty_conv)
  from last_filter[OF ne] ne False show ?thesis
    by (simp add: latest_rsi_def latest_rsi_of_def series_dropna_def)
qed

text \<open>
  Claim C9 on \<open>plateau\<close>: the RSI of the final row 27 is NaN (no gain and no loss in its
  window), and the scorer reads an earlier row.
\<close>

theorem latest_rsi_last_defined_witness:
  "RSI plateau ! 27 = NaN \<and>
   (\<exists>i<length (RSI plateau). RSI plateau ! i \<noteq> NaN \<and>
           (\<forall>j<length (RSI plateau). i < j \<longrightarrow> RSI plateau ! j = NaN) \<and>
           latest_rsi plateau = RSI plateau ! i)"
proof -
  have a: "RSI plateau ! 27 = NaN" by code_simp
  have "RSI plateau ! 26 \<in> set (RSI plateau)" by code_simp
  moreover have "RSI plateau ! 26 \<noteq> NaN" by code_simp
  ultimately have "\<not> (\<forall>x\<in>set (RSI plateau). x = NaN)" by blast
  with latest_rsi_last_defined[of plateau] a show ?thesis by simp
qed

text \<open>
  Claim C5. The spec has the scorer use the difference 0 when SMA20 or SMA50 is undefined.
  The subtraction of two NaN raises nothing, so the \<^verbatim>\<open>except\<close> branch that puts 0 is
  not taken: on a single row the difference is NaN and earns 0 points, where the difference
  0 would earn 1.
\<close>

theorem sma_diff_single_row:
  "SMA20 one_row = [NaN] \<and> SMA50 one_row = [NaN] \<and> sma_diff one_row = NaN \<and>
   sma_points (sma_diff one_row) = 0 \<and> sma_points (Fin 0) = 1"
  by code_simp

text \<open>
  Claim C2. The spec has a single sanitized row score 2 and read "Hold". The program
  scores it 0 and reads "Sell".
\<close>

theorem single_row_score_counterexample:
  "length one_row = 1 \<and> sanitize one_row = one_row \<and> score one_row = 0 \<and> meter one_row = Sell"
  by code_simp

text \<open>
  Claim C2, as amended. On a table of exactly one row every rolling indicator is NaN, the
  scorer reads the RSI fallback 50, which earns 0 points (50 is not below 50), and the
  score is what the SMA difference earns.
\<close>

theorem single_row_score:
  assumes "length df = 1"
  shows "SMA20 df = [NaN] \<and> SMA50 df = [NaN] \<and> RSI df = [NaN] \<and>
         BB_upper rnd df = [NaN] \<and> BB_lower rnd df = [NaN] \<and>
         latest_rsi df = Fin 50 \<and> rsi_points (latest_rsi df) = 0 \<and>
         score df = sma_points (sma_diff df)"
proof -
  from assms obtain r where df: "df = [r]"
    by (cases df) auto
  have rsi: "RSI df = [NaN]"
    by (simp add: df RSI_def rs_def avg_gain_def avg_loss_def rolling_mean_def rolling_def
        gain_def loss_def series_where_def delta_def col_def fsub_def)
  have sma: "SMA20 df = [NaN]" "SMA50 df = [NaN]"
    by (simp_all add: df SMA20_def SMA50_def rolling_mean_def rolling_def col_def)
  have sd: "BB_std df = [NaN]"
    by (simp add: df BB_std_def rolling_std_def rolling_def col_def)
  have bb: "BB_upper rnd df = [NaN]" "BB_lower rnd df = [NaN]"
    by (simp_all add: BB_upper_def BB_lower_def sma sd fsub_def)
  have lr: "latest_rsi df = Fin 50"
    by (simp add: latest_rsi_def latest_rsi_of_def series_dropna_def rsi)
  have rp: "rsi_points (latest_rsi df) = 0"
    by (simp add: lr rsi_points_def)
  have "score df = sma_points (sma_diff df)"
    by (simp add: score_def score_of_def rp)
  with rsi sma bb lr rp show ?thesis by simp
qed

text \<open>
  Claim C2, the amended statement on \<open>one_row\<close>.
\<close>

theorem single_row_score_witness:
  "length one_row = 1 \<and> RSI one_row = [NaN] \<and> latest_rsi one_row = Fin 50 \<and>
   score one_row = sma_points (sma_diff one_row)"
proof -
  have h: "length one_row = 1" by code_simp
  from single_row_score[OF h] h show ?thesis by simp
qed

end
